theory Spec2Isabelle
  imports Main
begin

section \<open>The topic cache controller of pkg/openfaas/cacher.go\<close>

text \<open>
  The controller crawls an OpenFaaS gateway for deployed functions, reads the topics
  each function subscribes to from its \<open>topic\<close> annotation, publishes the resulting
  topic-to-functions map into a cache, and invokes the functions cached for a topic.

  Go strings are byte sequences, here \<^typ>\<open>string\<close>. A Go call returning
  \<open>(value, error)\<close> is a pair whose second component is \<open>None\<close> for a nil error.
  The gateway client, the cache and the map builder are Go interfaces: records of
  operations over a state of their own, which each operation returns updated.
  Lines written with package \<open>log\<close> are collected in a list (the message only,
  without the timestamp prefix).
\<close>

subsection \<open>Library functions used by the controller\<close>

text \<open>
  \<open>strings.Split(s, sep)\<close> for a separator of one byte, the only way the controller
  calls it: \<open>cur\<close> holds the bytes of the entry being read. The result has one entry
  more than \<open>s\<close> has separators, so it is never empty.
\<close>

fun genSplit :: "string \<Rightarrow> char \<Rightarrow> string \<Rightarrow> string list" where
  "genSplit [] sep cur = [cur]"
| "genSplit (c # cs) sep cur =
     (if c = sep then cur # genSplit cs sep [] else genSplit cs sep (cur @ [c]))"

definition Split :: "string \<Rightarrow> char \<Rightarrow> string list" where
  "Split s sep = genSplit s sep []"


text \<open>The verb \<open>%d\<close> of package \<open>fmt\<close> on a length: decimal digits, no sign.\<close>

fun decimal :: "nat \<Rightarrow> string" where
  "decimal n =
     (if n < 10 then [''0123456789'' ! n]
      else decimal (n div 10) @ [''0123456789'' ! (n mod 10)])"

declare decimal.simps [simp del]

subsection \<open>Data\<close>

text \<open>A non-nil Go \<open>error\<close>; the verb \<open>%s\<close> prints its message.\<close>

datatype error = Error string

fun error_message :: "error \<Rightarrow> string" where
  "error_message (Error msg) = msg"

text \<open>
  \<open>types.FunctionStatus\<close> of faas-provider, with the two fields the controller reads.
  \<open>Annotations\<close> is a pointer to a map: \<open>None\<close> is the nil pointer.
\<close>

record FunctionStatus =
  Name :: string
  Annotations :: "(string \<rightharpoonup> string) option"

text \<open>
  The interface \<open>FunctionCrawler\<close>, over the state \<open>'c\<close> of the gateway behind it and
  an invocation payload \<open>'i\<close>. \<open>InvokeAsync\<close> returns a value and an error; the
  controller discards the value, so only the error is kept here.
\<close>

record ('c, 'i) FunctionCrawler =
  HasNamespaceSupport :: "'c \<Rightarrow> (bool \<times> error option) \<times> 'c"
  GetNamespaces :: "'c \<Rightarrow> (string list \<times> error option) \<times> 'c"
  GetFunctions :: "string \<Rightarrow> 'c \<Rightarrow> (FunctionStatus list \<times> error option) \<times> 'c"
  InvokeAsync :: "string \<Rightarrow> 'i \<Rightarrow> 'c \<Rightarrow> error option \<times> 'c"

text \<open>The interface \<open>TopicMap\<close> of the cache, over its state \<open>'m\<close>.\<close>

record 'm TopicMap =
  GetCachedValues :: "string \<Rightarrow> 'm \<Rightarrow> string list"
  Refresh :: "(string \<rightharpoonup> string list) \<Rightarrow> 'm \<Rightarrow> 'm"

text \<open>The interface \<open>TopicMapBuilder\<close>, over the builder's state \<open>'b\<close>.\<close>

record 'b TopicMapBuilder =
  Append :: "string \<Rightarrow> string \<Rightarrow> 'b \<Rightarrow> 'b"
  Build :: "'b \<Rightarrow> (string \<rightharpoonup> string list)"

text \<open>
  \<open>config.Controller\<close>, with the one field the controller reads: a \<open>time.Duration\<close>,
  a signed count of nanoseconds.
\<close>

record config_Controller =
  TopicRefreshTime :: int

record ('c, 'i, 'm) Controller =
  conf :: config_Controller
  client :: "('c, 'i) FunctionCrawler"
  cache :: "'m TopicMap"

text \<open>
  Modelled from the spec: the builder behind \<open>NewFunctionMapBuilder\<close>, whose \<open>Append\<close>
  and \<open>Build\<close> are declared outside cacher.go. The spec has \<open>Append\<close> add one
  association to the end of the topic's ordered list, keeping duplicates, and \<open>Build\<close>
  return the accumulated mapping from topic to ordered function identifiers.
\<close>

definition FunctionMapBuilder :: "(string \<rightharpoonup> string list) TopicMapBuilder" where
  "FunctionMapBuilder =
     \<lparr>Append = (\<lambda>topic function target.
         target(topic \<mapsto> (case target topic of None \<Rightarrow> [] | Some fs \<Rightarrow> fs) @ [function])),
      Build = (\<lambda>target. target)\<rparr>"

definition NewFunctionMapBuilder :: "string \<rightharpoonup> string list" where
  "NewFunctionMapBuilder = Map.empty"

text \<open>
  Modelled from the spec: the cache handed to \<open>NewController\<close>, whose \<open>GetCachedValues\<close>
  and \<open>Refresh\<close> are declared outside cacher.go. The spec has the lookup return the
  topic's ordered identifiers, the empty collection for an unknown topic, and the
  publication replace the whole snapshot.
\<close>

definition TopicFunctionCache :: "(string \<rightharpoonup> string list) TopicMap" where
  "TopicFunctionCache =
     \<lparr>GetCachedValues = (\<lambda>name topicMap.
         (case topicMap name of None \<Rightarrow> [] | Some functions \<Rightarrow> functions)),
      Refresh = (\<lambda>update topicMap. update)\<rparr>"

subsection \<open>The controller\<close>

text \<open>\<open>extractTopicsFromAnnotations\<close>: a nil map pointer and a missing key give no topic.\<close>

definition extractTopicsFromAnnotations :: "FunctionStatus \<Rightarrow> string list" where
  "extractTopicsFromAnnotations fn =
     (case Annotations fn of
        None \<Rightarrow> []
      | Some annotations \<Rightarrow>
          (case annotations ''topic'' of
             None \<Rightarrow> []
           | Some topicNames \<Rightarrow> Split topicNames CHR '',''))"

text \<open>
  \<open>crawlFunctions\<close>. The innermost loop, over the topics of one function, and the loop
  over the functions found in one namespace only touch the builder; the loop over the
  namespaces calls the client and writes to the log.
\<close>

definition appendTopics ::
  "'b TopicMapBuilder \<Rightarrow> string \<Rightarrow> FunctionStatus \<Rightarrow> string list \<Rightarrow> 'b \<Rightarrow> 'b" where
  "appendTopics builder ns fn topics =
     fold (\<lambda>topic b.
        if length ns > 0 then Append builder topic (Name fn @ ''.'' @ ns) b
        else Append builder topic (Name fn) b) topics"

definition appendFound ::
  "'b TopicMapBuilder \<Rightarrow> string \<Rightarrow> FunctionStatus list \<Rightarrow> 'b \<Rightarrow> 'b" where
  "appendFound builder ns found =
     fold (\<lambda>fn. appendTopics builder ns fn (extractTopicsFromAnnotations fn)) found"

fun crawlFunctions ::
  "('c, 'i, 'm) Controller \<Rightarrow> string list \<Rightarrow> 'b TopicMapBuilder \<Rightarrow>
     'b \<times> 'c \<times> string list \<Rightarrow> 'b \<times> 'c \<times> string list" where
  "crawlFunctions ctl [] builder (b, c, lg) = (b, c, lg)"
| "crawlFunctions ctl (ns # namespaces) builder (b, c, lg) =
     (case GetFunctions (client ctl) ns c of
        ((found, err), c') \<Rightarrow>
          (case err of
             Some e \<Rightarrow>
               crawlFunctions ctl namespaces builder
                 (appendFound builder ns [] b, c',
                  lg @ [''Received '' @ error_message e @
                        '' while fetching functions on namespace '' @ ns])
           | None \<Rightarrow>
               crawlFunctions ctl namespaces builder (appendFound builder ns found b, c', lg)))"

text \<open>
  \<open>refreshTick\<close>, one crawl cycle, on the states of the client and of the cache and
  the log.
\<close>

definition refreshTick ::
  "('c, 'i, 'm) Controller \<Rightarrow> bool \<Rightarrow> 'c \<times> 'm \<times> string list \<Rightarrow> 'c \<times> 'm \<times> string list" where
  "refreshTick ctl hasNamespaceSupport = (\<lambda>(c, m, lg).
     (case
        (if hasNamespaceSupport then
           (case GetNamespaces (client ctl) c of
              ((namespaces, err), c') \<Rightarrow>
                (case err of
                   Some e \<Rightarrow>
                     ([], c',
                      lg @ [''Crawling namespaces for functions'',
                            ''Received the following error during fetching namespaces '' @
                              error_message e])
                 | None \<Rightarrow> (namespaces, c', lg @ [''Crawling namespaces for functions''])))
         else ([''''], c, lg))
      of (namespaces, c1, lg1) \<Rightarrow>
        (case crawlFunctions ctl namespaces FunctionMapBuilder
                (NewFunctionMapBuilder, c1, lg1 @ [''Crawling for functions''])
         of (builder, c2, lg2) \<Rightarrow>
           (c2, Refresh (cache ctl) (Build FunctionMapBuilder builder) m,
            lg2 @ [''Crawling finished will now refresh the cache'']))))"

text \<open>
  \<open>refresh\<close>, the loop of the background goroutine. Each turn of its \<open>select\<close> receives
  from the ticker or from the context; the list gives what it receives, in order, and
  the loop waits when the list is used up.
\<close>

datatype event = Tick | Done

fun refresh ::
  "('c, 'i, 'm) Controller \<Rightarrow> event list \<Rightarrow> bool \<Rightarrow> 'c \<times> 'm \<times> string list \<Rightarrow>
     'c \<times> 'm \<times> string list" where
  "refresh ctl [] hasNamespaceSupport s = s"
| "refresh ctl (Tick # events) hasNamespaceSupport s =
     refresh ctl events hasNamespaceSupport (refreshTick ctl hasNamespaceSupport s)"
| "refresh ctl (Done # events) hasNamespaceSupport (c, m, lg) =
     (c, m, lg @ [''Received done via context will stop refreshing cache''])"

text \<open>
  \<open>Start\<close>. \<open>time.NewTicker\<close> panics on an interval that is not positive. The goroutine
  is started after the initial crawl; \<open>events\<close> is what its loop receives.
\<close>

datatype panic = NonPositiveTickerInterval

definition Start ::
  "('c, 'i, 'm) Controller \<Rightarrow> event list \<Rightarrow> 'c \<times> 'm \<times> string list \<Rightarrow>
     panic + 'c \<times> 'm \<times> string list" where
  "Start ctl events = (\<lambda>(c, m, lg).
     (case HasNamespaceSupport (client ctl) c of
        ((hasNamespaceSupport, _), c') \<Rightarrow>
          if TopicRefreshTime (conf ctl) \<le> 0 then Inl NonPositiveTickerInterval
          else Inr (refresh ctl events hasNamespaceSupport
                      (refreshTick ctl hasNamespaceSupport (c', m, lg)))))"

text \<open>
  \<open>Invoke\<close>: the loop over the cached functions returns the first error; the cache is
  only read.
\<close>

fun invokeAll ::
  "('c, 'i, 'm) Controller \<Rightarrow> string \<Rightarrow> 'i \<Rightarrow> string list \<Rightarrow> 'c \<times> string list \<Rightarrow>
     error option \<times> 'c \<times> string list" where
  "invokeAll ctl topic invocation [] (c, lg) = (None, c, lg)"
| "invokeAll ctl topic invocation (fn # functions) (c, lg) =
     (case InvokeAsync (client ctl) fn invocation c of
        (err, c') \<Rightarrow>
          (case err of
             Some e \<Rightarrow>
               (err, c',
                lg @ [''Invocation for topic '' @ topic @ '' failed due to err '' @
                      error_message e])
           | None \<Rightarrow> invokeAll ctl topic invocation functions (c', lg)))"

definition Invoke ::
  "('c, 'i, 'm) Controller \<Rightarrow> string \<Rightarrow> 'i \<Rightarrow> 'c \<times> 'm \<times> string list \<Rightarrow>
     error option \<times> 'c \<times> 'm \<times> string list" where
  "Invoke ctl topic invocation = (\<lambda>(c, m, lg).
     (let functions = GetCachedValues (cache ctl) topic m in
      (case invokeAll ctl topic invocation functions (c, lg) of
         (err, c', lg') \<Rightarrow>
           (case err of
              Some e \<Rightarrow> (err, c', m, lg')
            | None \<Rightarrow>
                (None, c', m,
                 lg' @ [''Invocation for topic '' @ topic @ '' finished on '' @
                        decimal (length functions) @ '' function(s)''])))))"

subsection \<open>Observing the controller\<close>

text \<open>
  What the controller does to its collaborators is read off two test doubles. The
  first wraps any client and keeps, next to the client's own state, the list of the
  calls made on it, each with what it returned.
\<close>

datatype 'i call =
    HasNamespaceSupportCall bool "error option"
  | GetNamespacesCall "string list" "error option"
  | GetFunctionsCall string "FunctionStatus list" "error option"
  | InvokeAsyncCall string 'i "error option"

definition recording :: "('c, 'i) FunctionCrawler \<Rightarrow> ('c \<times> 'i call list, 'i) FunctionCrawler" where
  "recording cl =
     \<lparr>HasNamespaceSupport = (\<lambda>(c, calls).
        (case HasNamespaceSupport cl c of
           ((h, err), c') \<Rightarrow> ((h, err), c', calls @ [HasNamespaceSupportCall h err]))),
      GetNamespaces = (\<lambda>(c, calls).
        (case GetNamespaces cl c of
           ((namespaces, err), c') \<Rightarrow>
             ((namespaces, err), c', calls @ [GetNamespacesCall namespaces err]))),
      GetFunctions = (\<lambda>ns (c, calls).
        (case GetFunctions cl ns c of
           ((found, err), c') \<Rightarrow> ((found, err), c', calls @ [GetFunctionsCall ns found err]))),
      InvokeAsync = (\<lambda>fn invocation (c, calls).
        (case InvokeAsync cl fn invocation c of
           (err, c') \<Rightarrow> (err, c', calls @ [InvokeAsyncCall fn invocation err])))\<rparr>"

definition observed :: "('c, 'i, 'm) Controller \<Rightarrow> ('c \<times> 'i call list, 'i, 'm) Controller" where
  "observed ctl = \<lparr>conf = conf ctl, client = recording (client ctl), cache = cache ctl\<rparr>"

text \<open>
  The second is a builder whose state is the list of the pairs handed to \<open>Append\<close>, in
  the order of the calls; its \<open>Build\<close> groups them by topic.
\<close>

definition AppendLog :: "(string \<times> string) list TopicMapBuilder" where
  "AppendLog =
     \<lparr>Append = (\<lambda>topic function appended. appended @ [(topic, function)]),
      Build = (\<lambda>appended topic.
        (case map snd (filter (\<lambda>(t, f). t = topic) appended) of
           [] \<Rightarrow> None
         | f # fs \<Rightarrow> Some (f # fs)))\<rparr>"

text \<open>
  The pairs one fetched function list stands for, and the pairs one answer of
  \<open>GetFunctions\<close> stands for: none when it came with an error.
\<close>

definition associations :: "string \<Rightarrow> FunctionStatus list \<Rightarrow> (string \<times> string) list" where
  "associations ns found =
     concat (map (\<lambda>fn. map (\<lambda>topic. (topic, if ns = [] then Name fn else Name fn @ ''.'' @ ns))
                          (extractTopicsFromAnnotations fn)) found)"

fun discovered :: "string \<times> FunctionStatus list \<times> error option \<Rightarrow> (string \<times> string) list" where
  "discovered (ns, found, None) = associations ns found"
| "discovered (ns, found, Some e) = []"

subsection \<open>Gateways for the examples\<close>

text \<open>
  A gateway that always answers the same: what it says about namespace support, its
  namespace list, the functions deployed per namespace (listing any other namespace
  fails) and the functions whose invocation fails.
\<close>

definition gateway ::
  "bool \<times> error option \<Rightarrow> string list \<times> error option \<Rightarrow> (string \<times> FunctionStatus list) list \<Rightarrow>
     string list \<Rightarrow> (unit, string) FunctionCrawler" where
  "gateway support namespaces deployed failing =
     \<lparr>HasNamespaceSupport = (\<lambda>c. (support, c)),
      GetNamespaces = (\<lambda>c. (namespaces, c)),
      GetFunctions = (\<lambda>ns c.
        (case map_of deployed ns of
           Some found \<Rightarrow> ((found, None), c)
         | None \<Rightarrow> (([], Some (Error ''no such namespace'')), c))),
      InvokeAsync = (\<lambda>fn invocation c.
        (if fn \<in> set failing then (Some (Error ''boom''), c) else (None, c)))\<rparr>"

definition billing_prod :: FunctionStatus where
  "billing_prod = \<lparr>Name = ''billing'', Annotations = Some [''topic'' \<mapsto> ''order.created'']\<rparr>"

definition billing_dev :: FunctionStatus where
  "billing_dev =
     \<lparr>Name = ''billing'', Annotations = Some [''topic'' \<mapsto> ''order.created,order.updated'']\<rparr>"

definition mailer :: FunctionStatus where
  "mailer = \<lparr>Name = ''mailer'', Annotations = Some [''topic'' \<mapsto> ''a,b,c'']\<rparr>"


definition logger :: FunctionStatus where
  "logger = \<lparr>Name = ''logger'', Annotations = Some [''topic'' \<mapsto> []]\<rparr>"


definition ping :: FunctionStatus where
  "ping = \<lparr>Name = ''ping'', Annotations = None\<rparr>"

text \<open>The registry of the end-to-end scenario; invoking \<open>billing.dev\<close> fails.\<close>

definition scenario :: "(unit, string, string \<rightharpoonup> string list) Controller" where
  "scenario =
     \<lparr>conf = \<lparr>TopicRefreshTime = 30000000000\<rparr>,
      client = gateway (True, None) ([''prod'', ''dev''], None)
                 [(''prod'', [billing_prod]), (''dev'', [billing_dev])] [''billing.dev''],
      cache = TopicFunctionCache\<rparr>"

text \<open>
  A gateway without namespaces: the support check and the namespace listing fail, and
  the functions are listed under the empty namespace.
\<close>

definition swarm :: "(unit, string, string \<rightharpoonup> string list) Controller" where
  "swarm =
     \<lparr>conf = \<lparr>TopicRefreshTime = 30000000000\<rparr>,
      client = gateway (False, Some (Error ''unable to determine namespace support''))
                 ([], Some (Error ''404 page not found''))
                 [([], [mailer]), (''tools'', [ping, logger])] [],
      cache = TopicFunctionCache\<rparr>"

text \<open>A gateway whose support check returns an error together with \<open>true\<close>.\<close>

definition misreporting :: "(unit, string, string \<rightharpoonup> string list) Controller" where
  "misreporting =
     \<lparr>conf = \<lparr>TopicRefreshTime = 30000000000\<rparr>,
      client = gateway (True, Some (Error ''context deadline exceeded'')) ([''prod''], None)
                 [(''prod'', [billing_prod])] [],
      cache = TopicFunctionCache\<rparr>"

section \<open>Properties\<close>

subsection \<open>Splitting and joining\<close>






subsection \<open>The test doubles\<close>

lemma observed_simps [simp]:
  "conf (observed ctl) = conf ctl"
  "cache (observed ctl) = cache ctl"
  "HasNamespaceSupport (client (observed ctl)) (c, calls) =
     (case HasNamespaceSupport (client ctl) c of
        ((h, err), c') \<Rightarrow> ((h, err), c', calls @ [HasNamespaceSupportCall h err]))"
  "GetNamespaces (client (observed ctl)) (c, calls) =
     (case GetNamespaces (client ctl) c of
        ((namespaces, err), c') \<Rightarrow>
          ((namespaces, err), c', calls @ [GetNamespacesCall namespaces err]))"
  "GetFunctions (client (observed ctl)) ns (c, calls) =
     (case GetFunctions (client ctl) ns c of
        ((found, err), c') \<Rightarrow> ((found, err), c', calls @ [GetFunctionsCall ns found err]))"
  "InvokeAsync (client (observed ctl)) fn invocation (c, calls) =
     (case InvokeAsync (client ctl) fn invocation c of
        (err, c') \<Rightarrow> (err, c', calls @ [InvokeAsyncCall fn invocation err]))"
  by (simp_all add: observed_def recording_def)

lemma gateway_simps [simp]:
  "HasNamespaceSupport (gateway support namespaces deployed failing) c = (support, c)"
  "GetNamespaces (gateway support namespaces deployed failing) c = (namespaces, c)"
  "GetFunctions (gateway support namespaces deployed failing) ns c =
     (case map_of deployed ns of
        Some found \<Rightarrow> ((found, None), c)
      | None \<Rightarrow> (([], Some (Error ''no such namespace'')), c))"
  "InvokeAsync (gateway support namespaces deployed failing) fn invocation c =
     (if fn \<in> set failing then (Some (Error ''boom''), c) else (None, c))"
  by (simp_all add: gateway_def split: option.splits)

lemma TopicFunctionCache_simps [simp]:
  "GetCachedValues TopicFunctionCache name topicMap =
     (case topicMap name of None \<Rightarrow> [] | Some functions \<Rightarrow> functions)"
  "Refresh TopicFunctionCache update topicMap = update"
  by (simp_all add: TopicFunctionCache_def)

lemma AppendLog_simps [simp]:
  "Append AppendLog topic function appended = appended @ [(topic, function)]"
  by (simp add: AppendLog_def)

lemma AppendLog_fold:
  "fold (\<lambda>(topic, ident). Append AppendLog topic ident) pairs appended = appended @ pairs"
  by (induction pairs arbitrary: appended) auto

lemma appendTopics_fold:
  "appendTopics builder ns fn topics b =
     fold (\<lambda>(topic, ident). Append builder topic ident)
       (map (\<lambda>topic. (topic, if ns = [] then Name fn else Name fn @ ''.'' @ ns)) topics) b"
  by (induction topics arbitrary: b) (auto simp: appendTopics_def)

lemma appendFound_fold:
  "appendFound builder ns found b =
     fold (\<lambda>(topic, ident). Append builder topic ident) (associations ns found) b"
  by (induction found arbitrary: b) (auto simp: appendFound_def associations_def appendTopics_fold)

lemma appendFound_AppendLog: "appendFound AppendLog ns found appended = appended @ associations ns found"
  by (simp add: appendFound_fold AppendLog_fold)


subsection \<open>Topic extraction\<close>





text \<open>
  C10. A \<open>topic\<close> annotation holding the empty string yields one topic, the empty
  string, and a crawl of the function's namespace appends the function's identifier
  under that topic.
\<close>

theorem extractTopics_empty_value:
  assumes "Annotations fn = Some annotations" and "annotations ''topic'' = Some ''''"
  shows "extractTopicsFromAnnotations fn = [''''] \<and>
         (GetFunctions (client ctl) ns c = ((found, None), c') \<and> fn \<in> set found \<longrightarrow>
            ('''', if ns = [] then Name fn else Name fn @ ''.'' @ ns)
              \<in> set (fst (crawlFunctions ctl [ns] AppendLog ([], c, lg))))"
proof -
  have e: "extractTopicsFromAnnotations fn = ['''']"
    using assms by (simp add: extractTopicsFromAnnotations_def Split_def)
  then have "fn \<in> set found \<Longrightarrow>
      ('''', if ns = [] then Name fn else Name fn @ ''.'' @ ns) \<in> set (associations ns found)"
    by (force simp: associations_def)
  with e show ?thesis
    by (auto simp: appendFound_AppendLog)
qed

theorem extractTopics_empty_value_witness:
  "Annotations logger = Some [''topic'' \<mapsto> ''''] \<and>
   [''topic'' \<mapsto> ''''] ''topic'' = Some '''' \<and>
   extractTopicsFromAnnotations logger = [''''] \<and>
   GetFunctions (client swarm) ''tools'' () = (([ping, logger], None), ()) \<and>
   logger \<in> set [ping, logger] \<and>
   ('''', ''logger.tools'') \<in> set (fst (crawlFunctions swarm [''tools''] AppendLog ([], (), [])))"
proof -
  have h1: "Annotations logger = Some [''topic'' \<mapsto> '''']"
    by (simp add: logger_def)
  have h2: "[''topic'' \<mapsto> ''''] ''topic'' = Some ''''"
    by simp
  have h3: "GetFunctions (client swarm) ''tools'' () = (([ping, logger], None), ())"
    by (simp add: swarm_def)
  have h4: "logger \<in> set [ping, logger]"
    by simp
  have "Name logger = ''logger''"
    by (simp add: logger_def)
  with h1 h2 h3 h4
    extractTopics_empty_value [OF h1 h2, of swarm "''tools''" "()" "[ping, logger]" "()" "[]"]
  show ?thesis by simp
qed

subsection \<open>Invocation\<close>

lemma invokeAll_observed:
  "invokeAll (observed ctl) topic invocation fns ((c, calls), lg) = (err, (c', calls'), lg') \<Longrightarrow>
   (case err of
      None \<Rightarrow>
        calls' = calls @ map (\<lambda>fn. InvokeAsyncCall fn invocation None) fns \<and> lg' = lg
    | Some e \<Rightarrow>
        (\<exists>pre fn rest. fns = pre @ fn # rest \<and>
           calls' = calls @ map (\<lambda>fn. InvokeAsyncCall fn invocation None) pre @
                      [InvokeAsyncCall fn invocation (Some e)]) \<and>
        lg' = lg @ [''Invocation for topic '' @ topic @ '' failed due to err '' @ error_message e])"
proof (induction fns arbitrary: c calls)
  case Nil
  then show ?case by auto
next
  case (Cons fn fns)
  obtain r c1 where i: "InvokeAsync (client ctl) fn invocation c = (r, c1)"
    by (metis surj_pair)
  show ?case
  proof (cases r)
    case None
    with Cons.prems i have
      "invokeAll (observed ctl) topic invocation fns
         ((c1, calls @ [InvokeAsyncCall fn invocation None]), lg) = (err, (c', calls'), lg')"
      by simp
    from Cons.IH [OF this] show ?thesis
    proof (cases err)
      case None
      with \<open>case err of None \<Rightarrow> _ | Some e \<Rightarrow> _\<close> show ?thesis by simp
    next
      case (Some e)
      with \<open>case err of None \<Rightarrow> _ | Some e \<Rightarrow> _\<close> obtain pre f rest where
        d: "fns = pre @ f # rest"
           "calls' = (calls @ [InvokeAsyncCall fn invocation None]) @
              map (\<lambda>fn. InvokeAsyncCall fn invocation None) pre @
              [InvokeAsyncCall f invocation (Some e)]"
           "lg' = lg @ [''Invocation for topic '' @ topic @ '' failed due to err '' @ error_message e]"
        by auto
      have "\<exists>pre' fn' rest. fn # fns = pre' @ fn' # rest \<and>
           calls' = calls @ map (\<lambda>fn. InvokeAsyncCall fn invocation None) pre' @
                      [InvokeAsyncCall fn' invocation (Some e)]"
        by (rule exI [of _ "fn # pre"], rule exI [of _ f], rule exI [of _ rest]) (simp add: d)
      with Some d show ?thesis by simp
    qed
  next
    case (Some e)
    with Cons.prems i have
      r: "err = Some e" "calls' = calls @ [InvokeAsyncCall fn invocation (Some e)]"
         "lg' = lg @ [''Invocation for topic '' @ topic @ '' failed due to err '' @ error_message e]"
      by auto
    have "\<exists>pre' fn' rest. fn # fns = pre' @ fn' # rest \<and>
           calls' = calls @ map (\<lambda>fn. InvokeAsyncCall fn invocation None) pre' @
                      [InvokeAsyncCall fn' invocation (Some e)]"
      by (rule exI [of _ "[]"], rule exI [of _ fn], rule exI [of _ fns]) (simp add: r)
    with r show ?thesis by simp
  qed
qed

text \<open>
  C1, as amended. \<open>Invoke\<close> calls \<open>InvokeAsync\<close> on the functions the cache returns
  for the topic, one after the other in the order of that list. When it returns no
  error, every function was called and every call succeeded. When it returns an error,
  the calls made are a run of successful ones followed by one failing call; the
  functions after it in the list are not called, and what the caller receives is the
  error of that call as the client returned it. The topic is named in the line written
  to the log, not in the error returned. The cache is left as it was.
\<close>

theorem Invoke_sequential_fail_fast:
  assumes "Invoke (observed ctl) topic invocation ((c, []), m, lg) = (err, (c', calls), m', lg')"
  shows "m' = m \<and>
    (case err of
       None \<Rightarrow>
         calls = map (\<lambda>fn. InvokeAsyncCall fn invocation None) (GetCachedValues (cache ctl) topic m) \<and>
         lg' = lg @ [''Invocation for topic '' @ topic @ '' finished on '' @
                     decimal (length (GetCachedValues (cache ctl) topic m)) @ '' function(s)'']
     | Some e \<Rightarrow>
         (\<exists>pre fn rest. GetCachedValues (cache ctl) topic m = pre @ fn # rest \<and>
            calls = map (\<lambda>fn. InvokeAsyncCall fn invocation None) pre @
                      [InvokeAsyncCall fn invocation (Some e)]) \<and>
         lg' = lg @ [''Invocation for topic '' @ topic @ '' failed due to err '' @
                     error_message e])"
proof -
  obtain r c1 calls1 lg1 where
    i: "invokeAll (observed ctl) topic invocation (GetCachedValues (cache ctl) topic m)
          ((c, []), lg) = (r, (c1, calls1), lg1)"
    by (metis surj_pair)
  show ?thesis
  proof (cases r)
    case None
    with assms i have
      r: "err = None" "calls = calls1" "m' = m"
         "lg' = lg1 @ [''Invocation for topic '' @ topic @ '' finished on '' @
                     decimal (length (GetCachedValues (cache ctl) topic m)) @ '' function(s)'']"
      by (auto simp: Invoke_def Let_def)
    from invokeAll_observed [OF i] None have
      "calls1 = map (\<lambda>fn. InvokeAsyncCall fn invocation None) (GetCachedValues (cache ctl) topic m)"
      "lg1 = lg"
      by simp_all
    with r show ?thesis by simp
  next
    case (Some e)
    with assms i have r: "err = Some e" "calls = calls1" "m' = m" "lg' = lg1"
      by (auto simp: Invoke_def Let_def)
    from invokeAll_observed [OF i] Some have
      "\<exists>pre fn rest. GetCachedValues (cache ctl) topic m = pre @ fn # rest \<and>
            calls1 = map (\<lambda>fn. InvokeAsyncCall fn invocation None) pre @
                      [InvokeAsyncCall fn invocation (Some e)]"
      "lg1 = lg @ [''Invocation for topic '' @ topic @ '' failed due to err '' @ error_message e]"
      by simp_all
    with r show ?thesis by simp
  qed
qed

theorem Invoke_sequential_fail_fast_witness:
  "Invoke (observed scenario) ''order.created'' ''payload''
     (((), []), [''order.created'' \<mapsto> [''billing.prod'', ''billing.dev'', ''billing.test'']], []) =
   (Some (Error ''boom''),
    ((), [InvokeAsyncCall ''billing.prod'' ''payload'' None,
          InvokeAsyncCall ''billing.dev'' ''payload'' (Some (Error ''boom''))]),
    [''order.created'' \<mapsto> [''billing.prod'', ''billing.dev'', ''billing.test'']],
    [''Invocation for topic order.created failed due to err boom'']) \<and>
   (\<exists>pre fn rest.
      GetCachedValues (cache scenario) ''order.created''
        [''order.created'' \<mapsto> [''billing.prod'', ''billing.dev'', ''billing.test'']] = pre @ fn # rest \<and>
      [InvokeAsyncCall ''billing.prod'' ''payload'' None,
       InvokeAsyncCall ''billing.dev'' ''payload'' (Some (Error ''boom''))] =
        map (\<lambda>fn. InvokeAsyncCall fn ''payload'' None) pre @
          [InvokeAsyncCall fn ''payload'' (Some (Error ''boom''))])"
proof -
  have h: "Invoke (observed scenario) ''order.created'' ''payload''
     (((), []), [''order.created'' \<mapsto> [''billing.prod'', ''billing.dev'', ''billing.test'']], []) =
   (Some (Error ''boom''),
    ((), [InvokeAsyncCall ''billing.prod'' ''payload'' None,
          InvokeAsyncCall ''billing.dev'' ''payload'' (Some (Error ''boom''))]),
    [''order.created'' \<mapsto> [''billing.prod'', ''billing.dev'', ''billing.test'']],
    [''Invocation for topic order.created failed due to err boom''])"
    by (simp add: Invoke_def scenario_def)
  show ?thesis
    using h Invoke_sequential_fail_fast [OF h] by simp
qed

text \<open>
  C1, as stated, fails where it has the failure reported to the caller identify the
  topic: the same function failing under two topics gives the caller the same error for
  both, and only the log lines differ.
\<close>

theorem Invoke_error_names_no_topic_counterexample:
  "Invoke scenario ''order.created'' ''payload''
     ((), [''order.created'' \<mapsto> [''billing.dev''], ''order.updated'' \<mapsto> [''billing.dev'']], []) =
   (Some (Error ''boom''), (),
    [''order.created'' \<mapsto> [''billing.dev''], ''order.updated'' \<mapsto> [''billing.dev'']],
    [''Invocation for topic order.created failed due to err boom'']) \<and>
   Invoke scenario ''order.updated'' ''payload''
     ((), [''order.created'' \<mapsto> [''billing.dev''], ''order.updated'' \<mapsto> [''billing.dev'']], []) =
   (Some (Error ''boom''), (),
    [''order.created'' \<mapsto> [''billing.dev''], ''order.updated'' \<mapsto> [''billing.dev'']],
    [''Invocation for topic order.updated failed due to err boom''])"
  by (simp add: Invoke_def Let_def scenario_def)

text \<open>
  C8. When the cache returns no function for the topic, \<open>Invoke\<close> returns no error and
  leaves the client as it was: no call is made on it. Only the closing log line, which
  counts zero functions, is written.
\<close>

theorem Invoke_no_functions:
  assumes "GetCachedValues (cache ctl) topic m = []"
  shows "Invoke (observed ctl) topic invocation ((c, calls), m, lg) =
           (None, (c, calls), m,
            lg @ [''Invocation for topic '' @ topic @ '' finished on 0 function(s)''])"
  using assms by (simp add: Invoke_def decimal.simps)

theorem Invoke_no_functions_witness:
  "GetCachedValues (cache scenario) ''unknown'' [''order.created'' \<mapsto> [''billing.prod'']] = [] \<and>
   Invoke (observed scenario) ''unknown'' ''payload''
     (((), []), [''order.created'' \<mapsto> [''billing.prod'']], []) =
   (None, ((), []), [''order.created'' \<mapsto> [''billing.prod'']],
    [''Invocation for topic unknown finished on 0 function(s)''])"
proof -
  have h: "GetCachedValues (cache scenario) ''unknown'' [''order.created'' \<mapsto> [''billing.prod'']] = []"
    by (simp add: scenario_def)
  show ?thesis
    using h Invoke_no_functions [OF h, of "''payload''" "()" "[]" "[]"] by simp
qed

subsection \<open>Crawling\<close>

lemma crawlFunctions_append:
  "crawlFunctions ctl (xs @ ys) builder s = crawlFunctions ctl ys builder (crawlFunctions ctl xs builder s)"
proof (induction xs arbitrary: s)
  case Nil
  then show ?case by (cases s) simp
next
  case (Cons ns xs)
  obtain b c lg where s: "s = (b, c, lg)" by (cases s)
  show ?case unfolding s using Cons.IH
    by (simp split: prod.splits option.splits)
qed

lemma crawlFunctions_observed:
  "crawlFunctions (observed ctl) namespaces builder (b, (c, calls), lg) = (b', (c', calls'), lg') \<Longrightarrow>
   \<exists>fetched. calls' = calls @ map (\<lambda>(ns, found, err). GetFunctionsCall ns found err) fetched \<and>
     map fst fetched = namespaces \<and>
     b' = fold (\<lambda>(topic, ident). Append builder topic ident) (concat (map discovered fetched)) b"
proof (induction namespaces arbitrary: b c calls lg)
  case Nil
  then show ?case by simp
next
  case (Cons ns namespaces)
  obtain found err c1 where g: "GetFunctions (client ctl) ns c = ((found, err), c1)"
    by (metis surj_pair)
  show ?case
  proof (cases err)
    case None
    with Cons.prems g have
      "crawlFunctions (observed ctl) namespaces builder
         (appendFound builder ns found b, (c1, calls @ [GetFunctionsCall ns found None]), lg) =
       (b', (c', calls'), lg')"
      by simp
    from Cons.IH [OF this] obtain fetched where
      f: "calls' = (calls @ [GetFunctionsCall ns found None]) @
            map (\<lambda>(ns, found, err). GetFunctionsCall ns found err) fetched"
         "map fst fetched = namespaces"
         "b' = fold (\<lambda>(topic, ident). Append builder topic ident) (concat (map discovered fetched))
                 (appendFound builder ns found b)"
      by blast
    show ?thesis
      by (rule exI [of _ "(ns, found, None) # fetched"]) (simp add: f appendFound_fold)
  next
    case (Some e)
    with Cons.prems g have
      "crawlFunctions (observed ctl) namespaces builder
         (appendFound builder ns [] b, (c1, calls @ [GetFunctionsCall ns found (Some e)]),
          lg @ [''Received '' @ error_message e @
                        '' while fetching functions on namespace '' @ ns]) =
       (b', (c', calls'), lg')"
      by simp
    from Cons.IH [OF this] obtain fetched where
      f: "calls' = (calls @ [GetFunctionsCall ns found (Some e)]) @
            map (\<lambda>(ns, found, err). GetFunctionsCall ns found err) fetched"
         "map fst fetched = namespaces"
         "b' = fold (\<lambda>(topic, ident). Append builder topic ident) (concat (map discovered fetched))
                 (appendFound builder ns [] b)"
      by blast
    show ?thesis
      by (rule exI [of _ "(ns, found, Some e) # fetched"]) (simp add: f appendFound_def)
  qed
qed

lemma set_discovered:
  "set (discovered (ns, found, err)) =
     {(topic, if ns = [] then Name fn else Name fn @ ''.'' @ ns) | topic fn.
        err = None \<and> fn \<in> set found \<and> topic \<in> set (extractTopicsFromAnnotations fn)}"
  by (cases err) (auto simp: associations_def)

text \<open>
  C2. The pairs appended to the builder during a crawl are exactly the pairs of a topic
  of a function listed without error with that function's identifier: the name alone
  when the namespace is the empty one, and name, dot and namespace otherwise.
\<close>

theorem crawlFunctions_identifier:
  assumes "crawlFunctions (observed ctl) namespaces AppendLog ([], (c, []), lg) =
             (appended, (c', calls), lg')"
  shows "set appended =
     {(topic, if ns = [] then Name fn else Name fn @ ''.'' @ ns) | topic ns fn found.
        GetFunctionsCall ns found None \<in> set calls \<and> fn \<in> set found \<and>
        topic \<in> set (extractTopicsFromAnnotations fn)}"
proof -
  from crawlFunctions_observed [OF assms] obtain fetched where
    f: "calls = map (\<lambda>(ns, found, err). GetFunctionsCall ns found err) fetched"
       "appended = concat (map discovered fetched)"
    by (auto simp: AppendLog_fold)
  have m: "GetFunctionsCall ns found None \<in> set calls \<longleftrightarrow> (ns, found, None) \<in> set fetched"
    for ns found
    unfolding f by force
  have "set appended = (\<Union>x\<in>set fetched. set (discovered x))"
    by (simp add: f)
  also have "\<dots> =
     {(topic, if ns = [] then Name fn else Name fn @ ''.'' @ ns) | topic ns fn found.
        (ns, found, None) \<in> set fetched \<and> fn \<in> set found \<and>
        topic \<in> set (extractTopicsFromAnnotations fn)}"
  proof (rule set_eqI, rule iffI)
    fix p
    assume "p \<in> (\<Union>x\<in>set fetched. set (discovered x))"
    then obtain ns found err where "(ns, found, err) \<in> set fetched" "p \<in> set (discovered (ns, found, err))"
      by auto
    then show "p \<in> {(topic, if ns = [] then Name fn else Name fn @ ''.'' @ ns) | topic ns fn found.
        (ns, found, None) \<in> set fetched \<and> fn \<in> set found \<and>
        topic \<in> set (extractTopicsFromAnnotations fn)}"
      unfolding set_discovered by blast
  next
    fix p
    assume "p \<in> {(topic, if ns = [] then Name fn else Name fn @ ''.'' @ ns) | topic ns fn found.
        (ns, found, None) \<in> set fetched \<and> fn \<in> set found \<and>
        topic \<in> set (extractTopicsFromAnnotations fn)}"
    then obtain topic ns fn found where
      "p = (topic, if ns = [] then Name fn else Name fn @ ''.'' @ ns)"
      "(ns, found, None) \<in> set fetched" "fn \<in> set found"
      "topic \<in> set (extractTopicsFromAnnotations fn)"
      by blast
    then have "(ns, found, None) \<in> set fetched \<and> p \<in> set (discovered (ns, found, None))"
      unfolding set_discovered by blast
    then show "p \<in> (\<Union>x\<in>set fetched. set (discovered x))"
      by blast
  qed
  finally show ?thesis by (simp only: m)
qed

theorem crawlFunctions_identifier_witness:
  "crawlFunctions (observed swarm) ['''', ''tools''] AppendLog ([], ((), []), []) =
     ([(''a'', ''mailer''), (''b'', ''mailer''), (''c'', ''mailer''), ('''', ''logger.tools'')],
      ((), [GetFunctionsCall '''' [mailer] None, GetFunctionsCall ''tools'' [ping, logger] None]), []) \<and>
   set [(''a'', ''mailer''), (''b'', ''mailer''), (''c'', ''mailer''), ('''', ''logger.tools'')] =
     {(topic, if ns = [] then Name fn else Name fn @ ''.'' @ ns) | topic ns fn found.
        (GetFunctionsCall ns found None :: string call)
          \<in> set [GetFunctionsCall '''' [mailer] None, GetFunctionsCall ''tools'' [ping, logger] None] \<and>
        fn \<in> set found \<and> topic \<in> set (extractTopicsFromAnnotations fn)}"
proof -
  have h: "crawlFunctions (observed swarm) ['''', ''tools''] AppendLog ([], ((), []), []) =
     ([(''a'', ''mailer''), (''b'', ''mailer''), (''c'', ''mailer''), ('''', ''logger.tools'')],
      ((), [GetFunctionsCall '''' [mailer] None, GetFunctionsCall ''tools'' [ping, logger] None]), [])"
    by (simp add: swarm_def appendFound_AppendLog associations_def
        extractTopicsFromAnnotations_def Split_def mailer_def ping_def logger_def)
  from h crawlFunctions_identifier [OF h] show ?thesis
    by (rule conjI)
qed

text \<open>
  C7. When listing the functions of one namespace fails, the builder is left as the
  namespaces before it made it (whatever came back with the error is not used), one
  line is logged, and the crawl goes on with the namespaces after it.
\<close>

theorem crawlFunctions_namespace_failure:
  assumes "crawlFunctions ctl pre builder s = (b1, c1, lg1)"
      and "GetFunctions (client ctl) ns c1 = ((found, Some e), c2)"
  shows "crawlFunctions ctl (pre @ ns # post) builder s =
           crawlFunctions ctl post builder
             (b1, c2, lg1 @ [''Received '' @ error_message e @
                             '' while fetching functions on namespace '' @ ns])"
  using assms by (simp add: crawlFunctions_append appendFound_def)

theorem crawlFunctions_namespace_failure_witness:
  "crawlFunctions scenario [''prod''] AppendLog ([], (), []) =
     ([(''order.created'', ''billing.prod'')], (), []) \<and>
   GetFunctions (client scenario) ''staging'' () = (([], Some (Error ''no such namespace'')), ()) \<and>
   crawlFunctions scenario ([''prod''] @ ''staging'' # [''dev'']) AppendLog ([], (), []) =
     ([(''order.created'', ''billing.prod''), (''order.created'', ''billing.dev''),
       (''order.updated'', ''billing.dev'')], (),
      [''Received no such namespace while fetching functions on namespace staging''])"
proof -
  have h1: "crawlFunctions scenario [''prod''] AppendLog ([], (), []) =
     ([(''order.created'', ''billing.prod'')], (), [])"
    by (simp add: scenario_def appendFound_AppendLog associations_def
        extractTopicsFromAnnotations_def Split_def billing_prod_def)
  have h2: "GetFunctions (client scenario) ''staging'' () =
     (([], Some (Error ''no such namespace'')), ())"
    by (simp add: scenario_def)
  have "crawlFunctions scenario [''dev''] AppendLog
          ([(''order.created'', ''billing.prod'')], (),
           [] @ [''Received '' @ error_message (Error ''no such namespace'') @
                 '' while fetching functions on namespace '' @ ''staging'']) =
     ([(''order.created'', ''billing.prod''), (''order.created'', ''billing.dev''),
       (''order.updated'', ''billing.dev'')], (),
      [''Received no such namespace while fetching functions on namespace staging''])"
    by (simp add: scenario_def appendFound_AppendLog associations_def
        extractTopicsFromAnnotations_def Split_def billing_dev_def)
  with h1 h2 crawlFunctions_namespace_failure [OF h1 h2, of "[''dev'']"]
  show ?thesis by simp
qed

subsection \<open>Crawl cycles\<close>

lemma Append_FunctionMapBuilder:
  "Append FunctionMapBuilder topic function target =
     target(topic \<mapsto> (case target topic of None \<Rightarrow> [] | Some fs \<Rightarrow> fs) @ [function])"
  by (simp add: FunctionMapBuilder_def)

lemma Build_FunctionMapBuilder: "Build FunctionMapBuilder target = target"
  by (simp add: FunctionMapBuilder_def)





lemma refreshTick_observed:
  assumes "refreshTick (observed ctl) h ((c, calls), m, lg) = ((c', calls'), m', lg')"
  shows "\<exists>listing fetched.
     calls' = calls @ listing @ map (\<lambda>(ns, found, err). GetFunctionsCall ns found err) fetched \<and>
     (if h then \<exists>namespaces err. listing = [GetNamespacesCall namespaces err] \<and>
                 map fst fetched = (case err of None \<Rightarrow> namespaces | Some e \<Rightarrow> [])
      else listing = [] \<and> map fst fetched = ['''']) \<and>
     m' = Refresh (cache ctl)
            (Build FunctionMapBuilder
               (fold (\<lambda>(topic, ident). Append FunctionMapBuilder topic ident)
                  (concat (map discovered fetched)) NewFunctionMapBuilder)) m"
proof -
  define start where "start =
    (if h then
       (case GetNamespaces (client ctl) c of
          ((namespaces, err), c1) \<Rightarrow>
            ((case err of None \<Rightarrow> namespaces | Some e \<Rightarrow> []),
             (c1, calls @ [GetNamespacesCall namespaces err]),
             (case err of
                None \<Rightarrow> lg @ [''Crawling namespaces for functions'']
              | Some e \<Rightarrow>
                  lg @ [''Crawling namespaces for functions'',
                        ''Received the following error during fetching namespaces '' @
                          error_message e])))
     else ([''''], (c, calls), lg))"
  obtain namespaces c1 calls1 lg1 where s: "start = (namespaces, (c1, calls1), lg1)"
    by (metis surj_pair)
  obtain b c2 calls2 lg2 where
    cr: "crawlFunctions (observed ctl) namespaces FunctionMapBuilder
           (NewFunctionMapBuilder, (c1, calls1), lg1 @ [''Crawling for functions'']) =
         (b, (c2, calls2), lg2)"
    by (metis surj_pair)
  have rt: "refreshTick (observed ctl) h ((c, calls), m, lg) =
      ((c2, calls2), Refresh (cache ctl) (Build FunctionMapBuilder b) m,
       lg2 @ [''Crawling finished will now refresh the cache''])"
    using s cr unfolding start_def refreshTick_def
    by (auto split: if_splits prod.splits option.splits)
  from crawlFunctions_observed [OF cr] obtain fetched where
    f: "calls2 = calls1 @ map (\<lambda>(ns, found, err). GetFunctionsCall ns found err) fetched"
       "map fst fetched = namespaces"
       "b = fold (\<lambda>(topic, ident). Append FunctionMapBuilder topic ident)
              (concat (map discovered fetched)) NewFunctionMapBuilder"
    by blast
  from rt assms have r: "calls' = calls2" "m' = Refresh (cache ctl) (Build FunctionMapBuilder b) m"
    by simp_all
  show ?thesis
  proof (cases h)
    case True
    obtain nss err c0 where g: "GetNamespaces (client ctl) c = ((nss, err), c0)"
      by (metis surj_pair)
    with True s have "namespaces = (case err of None \<Rightarrow> nss | Some e \<Rightarrow> [])"
      "calls1 = calls @ [GetNamespacesCall nss err]"
      by (simp_all add: start_def)
    with True f r show ?thesis
      by (intro exI [of _ "[GetNamespacesCall nss err]"] exI [of _ fetched]) auto
  next
    case False
    with s have "namespaces = ['''']" "calls1 = calls"
      by (simp_all add: start_def)
    with False f r show ?thesis
      by (intro exI [of _ "[]"] exI [of _ fetched]) auto
  qed
qed



text \<open>
  C6. When namespaces are supported and listing them fails, the crawl cycle makes no
  further call on the client (no namespace is crawled), logs the error, and still
  publishes into the cache: the snapshot of a fresh builder that received no
  association.
\<close>

theorem refreshTick_namespace_listing_fails:
  assumes "GetNamespaces (client ctl) c = ((namespaces, Some e), c')"
  shows "refreshTick (observed ctl) True ((c, calls), m, lg) =
     ((c', calls @ [GetNamespacesCall namespaces (Some e)]),
      Refresh (cache ctl) (Build FunctionMapBuilder NewFunctionMapBuilder) m,
      lg @ [''Crawling namespaces for functions'',
            ''Received the following error during fetching namespaces '' @ error_message e,
            ''Crawling for functions'',
            ''Crawling finished will now refresh the cache''])"
  using assms by (simp add: refreshTick_def)

theorem refreshTick_namespace_listing_fails_witness:
  "GetNamespaces (client swarm) () = (([], Some (Error ''404 page not found'')), ()) \<and>
   refreshTick (observed swarm) True (((), []), [''order.created'' \<mapsto> [''billing.prod'']], []) =
     (((), [GetNamespacesCall [] (Some (Error ''404 page not found''))]),
      Map.empty,
      [''Crawling namespaces for functions'',
       ''Received the following error during fetching namespaces 404 page not found'',
       ''Crawling for functions'',
       ''Crawling finished will now refresh the cache''])"
proof -
  have h: "GetNamespaces (client swarm) () = (([], Some (Error ''404 page not found'')), ())"
    by (simp add: swarm_def)
  have "Refresh (cache swarm) (Build FunctionMapBuilder NewFunctionMapBuilder)
          [''order.created'' \<mapsto> [''billing.prod'']] = Map.empty"
    by (simp add: swarm_def Build_FunctionMapBuilder NewFunctionMapBuilder_def)
  with h refreshTick_namespace_listing_fails
         [OF h, of "[]" "[''order.created'' \<mapsto> [''billing.prod'']]" "[]"]
  show ?thesis by simp
qed

lemma refreshTick_unsupported:
  assumes "refreshTick (observed ctl) False ((c, calls), m, lg) = ((c', calls'), m', lg')"
  shows "\<exists>found e. calls' = calls @ [GetFunctionsCall '''' found e]"
proof -
  from refreshTick_observed [OF assms] obtain listing fetched where
    "calls' = calls @ listing @ map (\<lambda>(ns, found, err). GetFunctionsCall ns found err) fetched"
    "listing = [] \<and> map fst fetched = ['''']"
    by fastforce
  then have
    f: "calls' = calls @ map (\<lambda>(ns, found, err). GetFunctionsCall ns found err) fetched"
       "map fst fetched = ['''']"
    by simp_all
  from f(2) obtain found e where "fetched = [('''', found, e)]"
    by (auto simp: map_eq_Cons_conv)
  with f(1) show ?thesis by simp
qed

lemma refresh_unsupported:
  "refresh (observed ctl) events False ((c, calls), m, lg) = ((c', calls'), m', lg') \<Longrightarrow>
   \<exists>fetched. calls' = calls @ map (\<lambda>(found, e). GetFunctionsCall '''' found e) fetched \<and>
              length fetched = length (takeWhile (\<lambda>ev. ev = Tick) events)"
proof (induction events arbitrary: c calls m lg)
  case Nil
  then show ?case by simp
next
  case (Cons ev events)
  show ?case
  proof (cases ev)
    case Tick
    obtain c1 calls1 m1 lg1 where
      t: "refreshTick (observed ctl) False ((c, calls), m, lg) = ((c1, calls1), m1, lg1)"
      by (metis surj_pair)
    from refreshTick_unsupported [OF t] obtain found e where
      c1: "calls1 = calls @ [GetFunctionsCall '''' found e]"
      by blast
    from Cons.prems Tick t have
      "refresh (observed ctl) events False ((c1, calls1), m1, lg1) = ((c', calls'), m', lg')"
      by simp
    from Cons.IH [OF this] obtain fetched where
      f: "calls' = calls1 @ map (\<lambda>(found, e). GetFunctionsCall '''' found e) fetched"
         "length fetched = length (takeWhile (\<lambda>ev. ev = Tick) events)"
      by blast
    show ?thesis
      by (rule exI [of _ "(found, e) # fetched"]) (simp add: f c1 Tick)
  next
    case Done
    with Cons.prems show ?thesis by simp
  qed
qed

text \<open>
  C5, as amended. \<open>Start\<close> discards the error of the support check and goes by the
  boolean returned with it. When that boolean is false, with or without an error, and
  the refresh interval is positive, the calls that follow the check are all listings of
  the functions of the empty namespace, one per crawl cycle: the initial cycle and one
  for each tick received before the context is done. The namespaces are never listed.
\<close>

theorem Start_unsupported:
  assumes "0 < TopicRefreshTime (conf ctl)"
      and "HasNamespaceSupport (client ctl) c = ((False, err), c1)"
  shows "\<exists>c' fetched m' lg'.
     Start (observed ctl) events ((c, []), m, lg) =
       Inr ((c', HasNamespaceSupportCall False err #
                   map (\<lambda>(found, e). GetFunctionsCall '''' found e) fetched), m', lg') \<and>
     length fetched = Suc (length (takeWhile (\<lambda>ev. ev = Tick) events))"
proof -
  obtain c2 calls2 m2 lg2 where
    t: "refreshTick (observed ctl) False ((c1, [HasNamespaceSupportCall False err]), m, lg) =
          ((c2, calls2), m2, lg2)"
    by (metis surj_pair)
  obtain c3 calls3 m3 lg3 where
    r: "refresh (observed ctl) events False ((c2, calls2), m2, lg2) = ((c3, calls3), m3, lg3)"
    by (metis surj_pair)
  from refreshTick_unsupported [OF t] obtain found e where
    c2: "calls2 = [HasNamespaceSupportCall False err] @ [GetFunctionsCall '''' found e]"
    by blast
  from refresh_unsupported [OF r] obtain fetched where
    f: "calls3 = calls2 @ map (\<lambda>(found, e). GetFunctionsCall '''' found e) fetched"
       "length fetched = length (takeWhile (\<lambda>ev. ev = Tick) events)"
    by blast
  have "Start (observed ctl) events ((c, []), m, lg) = Inr ((c3, calls3), m3, lg3)"
    using assms t r by (simp add: Start_def)
  with c2 f show ?thesis
    by (intro exI [of _ c3] exI [of _ "(found, e) # fetched"] exI [of _ m3] exI [of _ lg3]) simp
qed

theorem Start_unsupported_witness:
  "0 < TopicRefreshTime (conf swarm) \<and>
   HasNamespaceSupport (client swarm) () =
     ((False, Some (Error ''unable to determine namespace support'')), ()) \<and>
   Start (observed swarm) [Tick, Done, Tick] (((), []), Map.empty, []) =
     Inr (((), [HasNamespaceSupportCall False (Some (Error ''unable to determine namespace support'')),
                GetFunctionsCall '''' [mailer] None,
                GetFunctionsCall '''' [mailer] None]),
          [''a'' \<mapsto> [''mailer''], ''b'' \<mapsto> [''mailer''], ''c'' \<mapsto> [''mailer'']],
          [''Crawling for functions'', ''Crawling finished will now refresh the cache'',
           ''Crawling for functions'', ''Crawling finished will now refresh the cache'',
           ''Received done via context will stop refreshing cache'']) \<and>
   (\<exists>fetched. [GetFunctionsCall '''' [mailer] None, GetFunctionsCall '''' [mailer] None] =
        map (\<lambda>(found, e). (GetFunctionsCall '''' found e :: string call)) fetched \<and>
      length fetched = Suc (length (takeWhile (\<lambda>ev. ev = Tick) [Tick, Done, Tick])))"
proof -
  have h1: "0 < TopicRefreshTime (conf swarm)"
    by (simp add: swarm_def)
  have h2: "HasNamespaceSupport (client swarm) () =
     ((False, Some (Error ''unable to determine namespace support'')), ())"
    by (simp add: swarm_def)
  have s: "Start (observed swarm) [Tick, Done, Tick] (((), []), Map.empty, []) =
     Inr (((), [HasNamespaceSupportCall False (Some (Error ''unable to determine namespace support'')),
                GetFunctionsCall '''' [mailer] None,
                GetFunctionsCall '''' [mailer] None]),
          [''a'' \<mapsto> [''mailer''], ''b'' \<mapsto> [''mailer''], ''c'' \<mapsto> [''mailer'']],
          [''Crawling for functions'', ''Crawling finished will now refresh the cache'',
           ''Crawling for functions'', ''Crawling finished will now refresh the cache'',
           ''Received done via context will stop refreshing cache''])"
    by (simp add: Start_def refreshTick_def swarm_def appendFound_fold associations_def
        extractTopicsFromAnnotations_def Split_def mailer_def
        Append_FunctionMapBuilder Build_FunctionMapBuilder NewFunctionMapBuilder_def)
  from Start_unsupported [OF h1 h2, of "[Tick, Done, Tick]" Map.empty "[]"] s
  have "\<exists>fetched. [GetFunctionsCall '''' [mailer] None, GetFunctionsCall '''' [mailer] None] =
        map (\<lambda>(found, e). (GetFunctionsCall '''' found e :: string call)) fetched \<and>
      length fetched = Suc (length (takeWhile (\<lambda>ev. ev = Tick) [Tick, Done, Tick]))"
    by auto
  with h1 h2 s show ?thesis by blast
qed

text \<open>
  C5, as stated, fails: a support check that returns an error together with \<open>true\<close>
  makes the controller list the namespaces and publish namespace-qualified identifiers.
\<close>

theorem Start_error_with_true_counterexample:
  "HasNamespaceSupport (client misreporting) () =
     ((True, Some (Error ''context deadline exceeded'')), ()) \<and>
   Start (observed misreporting) [] (((), []), Map.empty, []) =
     Inr (((), [HasNamespaceSupportCall True (Some (Error ''context deadline exceeded'')),
                GetNamespacesCall [''prod''] None,
                GetFunctionsCall ''prod'' [billing_prod] None]),
          [''order.created'' \<mapsto> [''billing.prod'']],
          [''Crawling namespaces for functions'', ''Crawling for functions'',
           ''Crawling finished will now refresh the cache''])"
  by (simp add: Start_def refreshTick_def misreporting_def appendFound_fold associations_def
      extractTopicsFromAnnotations_def Split_def billing_prod_def
      Append_FunctionMapBuilder Build_FunctionMapBuilder NewFunctionMapBuilder_def)

end
